theory Spec2Isabelle
  imports Complex_Main "HOL-Library.Multiset"
begin

section \<open>Data model (frontend/src/types/index.ts)\<close>

text \<open>
  A JavaScript \<open>number\<close> is modelled as a \<^typ>\<open>real\<close>: a finite double is the real
  number it stands for, and comparisons are exact. \<open>NaN\<close> and the infinities are not
  values of the model. Where the code divides or multiplies numbers (\<open>formatSrtTime\<close>),
  each result is rounded to a double (\<open>double_round\<close>). A field the
  interface marks optional (\<open>error?: string\<close>) is an \<open>option\<close>, \<open>None\<close> standing for
  \<open>undefined\<close>. Field names are the source's; a name that HOL or Isar already uses
  (\<open>id\<close>, \<open>text\<close>) or that two interfaces share carries a suffix.
\<close>

datatype TaskStatus = pending | processing | paused | completed | failed | cancelled

datatype TaskStage =
  idle | extracting_audio | vad_detecting | transcribing | generating_subtitle
  | completed_stage | failed_stage

record SubtitleEntry =
  id_sub :: real
  startTime :: real
  endTime :: real
  text_sub :: string
  translation :: "string option"
  confidence :: "real option"
  originalText :: "string option"
  detectedLang :: "string option"
  langMismatch :: "bool option"

record VideoTask =
  id_task :: string
  filePath :: string
  fileName :: string
  fileSize :: real
  duration :: "real option"
  status :: TaskStatus
  progress :: real
  stage :: TaskStage
  stageDetail :: string
  error :: "string option"
  subtitles :: "SubtitleEntry list option"
  createdAt :: real
  updatedAt :: real
  completedAt :: "real option"

record ProgressUpdate =
  taskId :: string
  stage_p :: TaskStage
  progress_p :: real
  detail :: string
  timestamp :: real
  currentSegment :: "real option"
  totalSegments :: "real option"

text \<open>
  \<open>Partial<VideoTask>\<close>, the second argument of \<open>updateTask\<close>: every key may be
  absent (\<open>None\<close>). A key of an optional field may also be present with the value
  \<open>undefined\<close> (\<open>Some None\<close>), as in \<open>subtitles: task.subtitles\<close> of the
  \<open>task_completed\<close> handler.
\<close>

record TaskUpdates =
  id_u :: "string option"
  filePath_u :: "string option"
  fileName_u :: "string option"
  fileSize_u :: "real option"
  duration_u :: "real option option"
  status_u :: "TaskStatus option"
  progress_u :: "real option"
  stage_u :: "TaskStage option"
  stageDetail_u :: "string option"
  error_u :: "string option option"
  subtitles_u :: "SubtitleEntry list option option"
  createdAt_u :: "real option"
  updatedAt_u :: "real option"
  completedAt_u :: "real option option"

definition no_updates :: TaskUpdates where
  "no_updates = \<lparr> id_u = None, filePath_u = None, fileName_u = None, fileSize_u = None,
     duration_u = None, status_u = None, progress_u = None, stage_u = None,
     stageDetail_u = None, error_u = None, subtitles_u = None, createdAt_u = None,
     updatedAt_u = None, completedAt_u = None \<rparr>"

section \<open>The store (unnamed/part_004)\<close>

text \<open>The part of \<open>AppState\<close> that the task operations read and write.\<close>

record AppState =
  tasks :: "VideoTask list"
  selectedTaskId :: "string option"
  isProcessing :: bool

definition or_else :: "'a option \<Rightarrow> 'a \<Rightarrow> 'a" where
  "or_else u v = (case u of None \<Rightarrow> v | Some w \<Rightarrow> w)"

text \<open>The object spread \<open>{ ...task, ...updates }\<close>: a key of \<open>updates\<close> wins.\<close>

definition spread :: "VideoTask \<Rightarrow> TaskUpdates \<Rightarrow> VideoTask" where
  "spread task updates =
     \<lparr> id_task = or_else (id_u updates) (id_task task),
       filePath = or_else (filePath_u updates) (filePath task),
       fileName = or_else (fileName_u updates) (fileName task),
       fileSize = or_else (fileSize_u updates) (fileSize task),
       duration = or_else (duration_u updates) (duration task),
       status = or_else (status_u updates) (status task),
       progress = or_else (progress_u updates) (progress task),
       stage = or_else (stage_u updates) (stage task),
       stageDetail = or_else (stageDetail_u updates) (stageDetail task),
       error = or_else (error_u updates) (error task),
       subtitles = or_else (subtitles_u updates) (subtitles task),
       createdAt = or_else (createdAt_u updates) (createdAt task),
       updatedAt = or_else (updatedAt_u updates) (updatedAt task),
       completedAt = or_else (completedAt_u updates) (completedAt task) \<rparr>"

text \<open>
  \<open>addTask\<close> appends. \<open>updateTask\<close> maps over the list; \<open>now\<close> is the value
  \<open>Date.now()\<close> returns at the call:
  \<^verbatim>\<open>task.id === id ? { ...task, ...updates, updatedAt: Date.now() } : task\<close>
\<close>

definition addTask :: "VideoTask \<Rightarrow> AppState \<Rightarrow> AppState" where
  "addTask task state = state\<lparr> tasks := tasks state @ [task] \<rparr>"

definition updateTask :: "real \<Rightarrow> string \<Rightarrow> TaskUpdates \<Rightarrow> AppState \<Rightarrow> AppState" where
  "updateTask now i updates state =
     state\<lparr> tasks := map (\<lambda>task. if id_task task = i
                                  then (spread task updates)\<lparr> updatedAt := now \<rparr>
                                  else task) (tasks state) \<rparr>"

definition removeTask :: "string \<Rightarrow> AppState \<Rightarrow> AppState" where
  "removeTask i state =
     state\<lparr> tasks := filter (\<lambda>task. id_task task \<noteq> i) (tasks state),
            selectedTaskId := (if selectedTaskId state = Some i then None
                               else selectedTaskId state) \<rparr>"

definition clearCompleted :: "AppState \<Rightarrow> AppState" where
  "clearCompleted state =
     state\<lparr> tasks := filter (\<lambda>task. status task \<notin> set [completed, failed, cancelled])
                         (tasks state) \<rparr>"

definition setProcessing :: "bool \<Rightarrow> AppState \<Rightarrow> AppState" where
  "setProcessing b state = state\<lparr> isProcessing := b \<rparr>"

definition getTaskById :: "string \<Rightarrow> AppState \<Rightarrow> VideoTask option" where
  "getTaskById i state = find (\<lambda>task. id_task task = i) (tasks state)"

section \<open>The WebSocket service (frontend/src/services/api.ts)\<close>

text \<open>
  A value of type \<open>any\<close> that the code inspects with \<open>typeof\<close>.
\<close>

datatype jsval = JUndefined | JNull | JBoolean bool | JNumber real | JString string

fun is_number :: "jsval \<Rightarrow> bool" where
  "is_number (JNumber _) = True"
| "is_number _ = False"

text \<open>
  The payload \<open>data.subtitle\<close> of a \<open>subtitle_added\<close> message. The four time keys
  are the ones the handler tests with \<open>typeof\<close>; \<open>text\<close> may be missing
  (\<open>raw.text ?? ''\<close>); \<open>id\<close> and \<open>confidence\<close> are copied as they are and have
  the types \<open>SubtitleEntry\<close> declares.
\<close>

record RawSubtitle =
  id_r :: real
  startTime_r :: jsval
  start_r :: jsval
  endTime_r :: jsval
  end_r :: jsval
  text_r :: "string option"
  confidence_r :: "real option"

record SubtitleAdded =
  taskId_d :: string
  subtitle :: "RawSubtitle option"

text \<open>The messages of the socket that \<open>setupEventListeners\<close> subscribes to.\<close>

datatype SocketEvent =
    task_progress ProgressUpdate
  | translation_progress
  | translation_completed
  | subtitle_added SubtitleAdded
  | task_completed VideoTask
  | task_failed string string
  | synthesis_progress string real string
  | synthesis_completed string
  | synthesis_failed string string
  | task_cancelled string
  | all_tasks_completed

text \<open>
  The service owns no task data: it writes to the store and calls its listeners
  (\<open>this.emit(event, data)\<close>). The state of the model is the store and the list of the
  calls of \<open>emit\<close> so far, each with the event name and the message that caused it.
\<close>

record Service =
  store :: AppState
  emitted :: "(string \<times> SocketEvent) list"

definition emit :: "string \<Rightarrow> SocketEvent \<Rightarrow> Service \<Rightarrow> Service" where
  "emit name ev sv = sv\<lparr> emitted := emitted sv @ [(name, ev)] \<rparr>"

text \<open>
  The string literals of the handlers, as UTF-8 bytes: U+5904 U+7406 U+5B8C U+6210,
  U+5904 U+7406 U+5931 U+8D25 and \<open>": "\<close>, U+89C6 U+9891 U+5408 U+6210 U+5B8C U+6210,
  U+5408 U+6210 U+5931 U+8D25 and \<open>": "\<close>, U+5DF2 U+53D6 U+6D88.
\<close>

definition detail_completed :: string where
  "detail_completed = [CHR 0xE5, CHR 0xA4, CHR 0x84, CHR 0xE7, CHR 0x90, CHR 0x86,
     CHR 0xE5, CHR 0xAE, CHR 0x8C, CHR 0xE6, CHR 0x88, CHR 0x90]"

definition detail_failed :: string where
  "detail_failed = [CHR 0xE5, CHR 0xA4, CHR 0x84, CHR 0xE7, CHR 0x90, CHR 0x86,
     CHR 0xE5, CHR 0xA4, CHR 0xB1, CHR 0xE8, CHR 0xB4, CHR 0xA5, CHR 0x3A, CHR 0x20]"

definition detail_synthesis_completed :: string where
  "detail_synthesis_completed = [CHR 0xE8, CHR 0xA7, CHR 0x86, CHR 0xE9, CHR 0xA2, CHR 0x91,
     CHR 0xE5, CHR 0x90, CHR 0x88, CHR 0xE6, CHR 0x88, CHR 0x90, CHR 0xE5, CHR 0xAE, CHR 0x8C,
     CHR 0xE6, CHR 0x88, CHR 0x90]"

definition detail_synthesis_failed :: string where
  "detail_synthesis_failed = [CHR 0xE5, CHR 0x90, CHR 0x88, CHR 0xE6, CHR 0x88, CHR 0x90,
     CHR 0xE5, CHR 0xA4, CHR 0xB1, CHR 0xE8, CHR 0xB4, CHR 0xA5, CHR 0x3A, CHR 0x20]"

definition detail_cancelled :: string where
  "detail_cancelled = [CHR 0xE5, CHR 0xB7, CHR 0xB2, CHR 0xE5, CHR 0x8F, CHR 0x96,
     CHR 0xE6, CHR 0xB6, CHR 0x88]"

definition handleProgressUpdate :: "real \<Rightarrow> ProgressUpdate \<Rightarrow> AppState \<Rightarrow> AppState" where
  "handleProgressUpdate now update state =
     updateTask now (taskId update)
       (no_updates\<lparr> progress_u := Some (progress_p update),
                     stage_u := Some (stage_p update),
                     stageDetail_u := Some (detail update) \<rparr>) state"

text \<open>
  \<open>handleSubtitleAdded\<close>. \<open>normalize_subtitle\<close> is the object \<open>normalized\<close> the handler
  builds from \<open>data.subtitle || {}\<close>, or \<open>None\<close> where the handler returns because
  \<open>typeof normalized.startTime\<close> or \<open>typeof normalized.endTime\<close> is not
  \<open>'number'\<close>; with \<open>data.subtitle\<close> missing, \<open>raw\<close> is \<open>{}\<close> and no time key is
  a number. \<open>task.subtitles || []\<close> is the list, or \<open>[]\<close> when the field is undefined.
  The comparator \<open>(a, b) => a.startTime - b.startTime\<close> orders by \<open>startTime\<close>,
  ascending, and \<open>Array.prototype.sort\<close> is stable, as \<^const>\<open>sort_key\<close> is.
\<close>

definition pick_time :: "jsval \<Rightarrow> jsval \<Rightarrow> jsval" where
  "pick_time a b = (if is_number a then a else b)"

definition normalize_subtitle :: "RawSubtitle option \<Rightarrow> SubtitleEntry option" where
  "normalize_subtitle subtitle_opt =
     (case subtitle_opt of
        None \<Rightarrow> None
      | Some raw \<Rightarrow>
          (case (pick_time (startTime_r raw) (start_r raw),
                 pick_time (endTime_r raw) (end_r raw)) of
             (JNumber st, JNumber en) \<Rightarrow>
               Some \<lparr> id_sub = id_r raw, startTime = st, endTime = en,
                      text_sub = or_else (text_r raw) [],
                      translation = None, confidence = confidence_r raw,
                      originalText = None, detectedLang = None, langMismatch = None \<rparr>
           | _ \<Rightarrow> None))"

definition handleSubtitleAdded :: "real \<Rightarrow> SubtitleAdded \<Rightarrow> AppState \<Rightarrow> AppState" where
  "handleSubtitleAdded now data state =
     (case getTaskById (taskId_d data) state of
        None \<Rightarrow> state
      | Some task \<Rightarrow>
          let currentSubtitles = or_else (subtitles task) [] in
          (case normalize_subtitle (subtitle data) of
             None \<Rightarrow> state
           | Some normalized \<Rightarrow>
               if find (\<lambda>s. id_sub s = id_sub normalized) currentSubtitles = None
               then updateTask now (taskId_d data)
                      (no_updates\<lparr> subtitles_u :=
                         Some (Some (sort_key startTime
                                       (currentSubtitles @ [normalized]))) \<rparr>) state
               else state))"

text \<open>
  One handler of \<open>setupEventListeners\<close> per message. Both calls of \<open>Date.now()\<close> in
  the \<open>task_completed\<close> handler are given the one value \<open>now\<close>.
\<close>

fun on_message :: "real \<Rightarrow> SocketEvent \<Rightarrow> Service \<Rightarrow> Service" where
  "on_message now (task_progress update) sv =
     emit ''progress'' (task_progress update)
       (sv\<lparr> store := handleProgressUpdate now update (store sv) \<rparr>)"
| "on_message now translation_progress sv =
     emit ''translation_progress'' translation_progress sv"
| "on_message now translation_completed sv =
     emit ''translation_completed'' translation_completed sv"
| "on_message now (subtitle_added data) sv =
     emit ''subtitle_added'' (subtitle_added data)
       (sv\<lparr> store := handleSubtitleAdded now data (store sv) \<rparr>)"
| "on_message now (task_completed task) sv =
     emit ''completed'' (task_completed task)
       (sv\<lparr> store := updateTask now (id_task task)
           (no_updates\<lparr> status_u := Some completed, progress_u := Some 100,
                         stage_u := Some completed_stage,
                         stageDetail_u := Some detail_completed,
                         subtitles_u := Some (subtitles task),
                         completedAt_u := Some (Some now) \<rparr>) (store sv) \<rparr>)"
| "on_message now (task_failed i err) sv =
     emit ''failed'' (task_failed i err)
       (sv\<lparr> store := updateTask now i
           (no_updates\<lparr> status_u := Some failed, error_u := Some (Some err),
                         stageDetail_u := Some (detail_failed @ err) \<rparr>) (store sv) \<rparr>)"
| "on_message now (synthesis_progress i p d) sv =
     emit ''synthesis_progress'' (synthesis_progress i p d)
       (sv\<lparr> store := updateTask now i
           (no_updates\<lparr> progress_u := Some p, stage_u := Some generating_subtitle,
                         stageDetail_u := Some d \<rparr>) (store sv) \<rparr>)"
| "on_message now (synthesis_completed i) sv =
     emit ''synthesis_completed'' (synthesis_completed i)
       (sv\<lparr> store := updateTask now i
           (no_updates\<lparr> status_u := Some completed, progress_u := Some 100,
                         stage_u := Some completed_stage,
                         stageDetail_u := Some detail_synthesis_completed \<rparr>) (store sv) \<rparr>)"
| "on_message now (synthesis_failed i err) sv =
     emit ''synthesis_failed'' (synthesis_failed i err)
       (sv\<lparr> store := updateTask now i
           (no_updates\<lparr> status_u := Some failed, error_u := Some (Some err),
                         stageDetail_u := Some (detail_synthesis_failed @ err) \<rparr>) (store sv) \<rparr>)"
| "on_message now (task_cancelled i) sv =
     emit ''cancelled'' (task_cancelled i)
       (sv\<lparr> store := updateTask now i
           (no_updates\<lparr> status_u := Some cancelled,
                         stageDetail_u := Some detail_cancelled \<rparr>) (store sv) \<rparr>)"
| "on_message now all_tasks_completed sv =
     emit ''allCompleted'' all_tasks_completed
       (sv\<lparr> store := setProcessing False (store sv) \<rparr>)"

text \<open>A run of the service: the messages in arrival order, each with its clock value.\<close>

fun run_messages :: "(real \<times> SocketEvent) list \<Rightarrow> Service \<Rightarrow> Service" where
  "run_messages [] sv = sv"
| "run_messages ((now, ev) # rest) sv = run_messages rest (on_message now ev sv)"

text \<open>
  The property of a task's subtitle list that the merge is to keep: ordered by
  \<open>startTime\<close>, no id twice. An undefined list counts as the empty one, as in the
  handler. \<open>run_subtitle_added\<close> is a run of the service on \<open>subtitle_added\<close> messages
  only, in arrival order.
\<close>

definition subtitles_ok :: "VideoTask \<Rightarrow> bool" where
  "subtitles_ok t =
     (sorted (map startTime (or_else (subtitles t) [])) \<and>
      distinct (map id_sub (or_else (subtitles t) [])))"

fun run_subtitle_added :: "(real \<times> SubtitleAdded) list \<Rightarrow> Service \<Rightarrow> Service" where
  "run_subtitle_added [] sv = sv"
| "run_subtitle_added ((now, d) # rest) sv =
     run_subtitle_added rest (on_message now (subtitle_added d) sv)"

section \<open>Export utilities (frontend/src/main.tsx, lines 56 to 124)\<close>

text \<open>
  \<open>Number.prototype.toString\<close> on an integer of absolute value below \<open>10^21\<close>
  prints its decimal digits, with a minus sign when negative; \<open>toString_nat\<close> and
  \<open>toString_int\<close> are that. \<open>padStart\<close> pads on the left up to the given length and
  never truncates.
\<close>

definition digit_char :: "nat \<Rightarrow> char" where
  "digit_char d = ''0123456789'' ! d"

fun toString_nat :: "nat \<Rightarrow> string" where
  "toString_nat n =
     (if n < 10 then [digit_char n] else toString_nat (n div 10) @ [digit_char (n mod 10)])"

declare toString_nat.simps [simp del]

definition toString_int :: "int \<Rightarrow> string" where
  "toString_int i = (if i < 0 then ''-'' @ toString_nat (nat (- i)) else toString_nat (nat i))"

definition padStart :: "nat \<Rightarrow> char \<Rightarrow> string \<Rightarrow> string" where
  "padStart n c s = replicate (n - length s) c @ s"

text \<open>
  The remainder \<open>x % y\<close> of JavaScript takes the sign of \<open>x\<close>: the quotient is
  truncated towards zero.
\<close>

definition js_trunc :: "real \<Rightarrow> int" where
  "js_trunc q = (if 0 \<le> q then \<lfloor>q\<rfloor> else \<lceil>q\<rceil>)"

definition js_rem :: "real \<Rightarrow> real \<Rightarrow> real" where
  "js_rem x y = x - y * of_int (js_trunc (x / y))"

definition nl :: string where
  "nl = [CHR 0x0A]"

text \<open>
  The arithmetic of \<open>formatSrtTime\<close> is that of IEEE 754 doubles: a quotient or a
  product is the exact result rounded to the nearest double, a tie to the even
  significand. \<open>expo x\<close> is the binary exponent of a positive \<open>x\<close> (\<open>2 ^ expo x\<close> is at
  most \<open>x\<close>, which is below \<open>2 ^ (expo x + 1)\<close>), \<open>ulp x\<close> the distance of the doubles
  around \<open>x\<close> (53 significant bits, the subnormal doubles below \<open>2 ^ - 1022\<close> at distance
  \<open>2 ^ - 1074\<close>), \<open>double_round\<close> the rounding and \<open>is_double\<close> the values it leaves
  as they are. Overflow to infinity, above \<open>2 ^ 1024\<close>, is not modelled. The remainder
  \<open>%\<close> of two doubles is a double: it is computed exactly.
\<close>

function expo :: "real \<Rightarrow> int" where
  "expo x = (if x \<le> 0 then 0
             else if 2 \<le> x then expo (x / 2) + 1
             else if x < 1 then expo (2 * x) - 1
             else 0)"
  by pat_completeness auto
termination
proof (relation "measure (\<lambda>x. nat \<bar>\<lfloor>log 2 x\<rfloor>\<bar>)")
  show "wf (measure (\<lambda>x. nat \<bar>\<lfloor>log 2 x\<rfloor>\<bar>))" by simp
next
  fix x :: real
  assume "\<not> x \<le> 0" and x: "2 \<le> x"
  have "log 2 (x / 2) = log 2 x - 1"
    using x by (simp add: log_divide)
  then have a: "\<lfloor>log 2 (x / 2)\<rfloor> = \<lfloor>log 2 x\<rfloor> - 1"
    by simp
  have "1 \<le> log 2 x"
    using x by (simp add: le_log_iff)
  then have b: "1 \<le> \<lfloor>log 2 x\<rfloor>"
    by (simp add: le_floor_iff)
  show "(x / 2, x) \<in> measure (\<lambda>x. nat \<bar>\<lfloor>log 2 x\<rfloor>\<bar>)"
    unfolding in_measure a using b by arith
next
  fix x :: real
  assume pos: "\<not> x \<le> 0" and "\<not> 2 \<le> x" and x: "x < 1"
  have "log 2 (2 * x) = log 2 x + 1"
    using pos by (simp add: log_mult)
  then have a: "\<lfloor>log 2 (2 * x)\<rfloor> = \<lfloor>log 2 x\<rfloor> + 1"
    by simp
  have "log 2 x < 0"
    using pos x by simp
  then have b: "\<lfloor>log 2 x\<rfloor> \<le> - 1"
    by (simp add: floor_le_iff)
  show "(2 * x, x) \<in> measure (\<lambda>x. nat \<bar>\<lfloor>log 2 x\<rfloor>\<bar>)"
    unfolding in_measure a using b by arith
qed

declare expo.simps [simp del]

definition round_ties_even :: "real \<Rightarrow> int" where
  "round_ties_even y =
     (let n = \<lfloor>y\<rfloor>; r = y - of_int n
      in if r < 1 / 2 then n else if 1 / 2 < r then n + 1 else if even n then n else n + 1)"

definition ulp :: "real \<Rightarrow> real" where
  "ulp x = 2 powi (max (expo \<bar>x\<bar>) (- 1022) - 52)"

definition double_round :: "real \<Rightarrow> real" where
  "double_round x = of_int (round_ties_even (x / ulp x)) * ulp x"

definition is_double :: "real \<Rightarrow> bool" where
  "is_double x = (double_round x = x)"

text \<open>
  \<open>formatSrtTime\<close>, with \<open>Math.floor\<close> as \<open>\<lfloor>_\<rfloor>\<close>: \<open>seconds / 3600\<close>,
  \<open>(seconds % 3600) / 60\<close> and \<open>(seconds % 1) * 1000\<close> are rounded to doubles before
  the floor is taken.
\<close>

definition formatSrtTime :: "real \<Rightarrow> string" where
  "formatSrtTime seconds =
     (let h = \<lfloor>double_round (seconds / 3600)\<rfloor>;
          m = \<lfloor>double_round (js_rem seconds 3600 / 60)\<rfloor>;
          s = \<lfloor>js_rem seconds 60\<rfloor>;
          ms = \<lfloor>double_round (js_rem seconds 1 * 1000)\<rfloor>
      in padStart 2 CHR ''0'' (toString_int h) @ '':'' @
         padStart 2 CHR ''0'' (toString_int m) @ '':'' @
         padStart 2 CHR ''0'' (toString_int s) @ '','' @
         padStart 3 CHR ''0'' (toString_int ms))"

text \<open>
  \<open>generateSrtContent\<close>. \<open>a || b\<close> on an optional string is \<open>b\<close> when
  \<open>a\<close> is undefined or empty (\<open>or_text\<close>), and \<open>!a\<close> holds in the same two cases
  (\<open>falsy\<close>). \<open>cue_content\<close> is the variable \<open>content\<close> of the callback,
  \<open>srt_cue\<close> the string the callback returns for one entry and its index,
  \<open>srt_cues\<close> the array \<open>subtitles.map(...)\<close>, and \<open>join_str\<close> is
  \<open>Array.prototype.join\<close>.
\<close>

datatype ExportMode = original | translated | bilingual | bilingual_tagged

definition or_text :: "string option \<Rightarrow> string \<Rightarrow> string" where
  "or_text a b = (case a of None \<Rightarrow> b | Some s \<Rightarrow> if s = [] then b else s)"

definition falsy :: "string option \<Rightarrow> bool" where
  "falsy a = (case a of None \<Rightarrow> True | Some s \<Rightarrow> s = [])"

definition cue_content :: "ExportMode \<Rightarrow> SubtitleEntry \<Rightarrow> string" where
  "cue_content mode sub =
     (case mode of
        original \<Rightarrow> or_text (originalText sub) (text_sub sub)
      | translated \<Rightarrow> text_sub sub
      | bilingual \<Rightarrow>
          (let original_text = or_text (originalText sub) (text_sub sub);
               translation_text = text_sub sub
           in if original_text = translation_text \<and> falsy (originalText sub)
              then original_text
              else original_text @ nl @ translation_text)
      | bilingual_tagged \<Rightarrow>
          (let original_text = or_text (originalText sub) (text_sub sub);
               translation_text = text_sub sub
           in if original_text = translation_text \<and> falsy (originalText sub)
              then ''[O]'' @ original_text
              else ''[O]'' @ original_text @ nl @ ''[T]'' @ translation_text))"

definition srt_cue :: "ExportMode \<Rightarrow> nat \<Rightarrow> SubtitleEntry \<Rightarrow> string" where
  "srt_cue mode index sub =
     toString_nat (index + 1) @ nl @
     formatSrtTime (startTime sub) @ '' --> '' @ formatSrtTime (endTime sub) @ nl @
     cue_content mode sub @ nl"

fun join_str :: "string \<Rightarrow> string list \<Rightarrow> string" where
  "join_str sep [] = []"
| "join_str sep [x] = x"
| "join_str sep (x # y # ys) = x @ sep @ join_str sep (y # ys)"

definition srt_cues :: "SubtitleEntry list \<Rightarrow> ExportMode \<Rightarrow> string list" where
  "srt_cues subs mode = map (\<lambda>(index, sub). srt_cue mode index sub) (enumerate 0 subs)"

definition generateSrtContent :: "SubtitleEntry list \<Rightarrow> ExportMode \<Rightarrow> string" where
  "generateSrtContent subs mode = join_str nl (srt_cues subs mode)"



section \<open>The two formatFileSize helpers\<close>

text \<open>
  \<open>bytes\<close> is a byte count, a natural number below \<open>2 ^ 53\<close>. \<open>log_index\<close> is
  \<open>Math.floor(Math.log(bytes) / Math.log(k))\<close> for \<open>k = 1024\<close> and \<open>bytes\<close> at least 1,
  in exact arithmetic (\<open>log_index_floor_log\<close> below). The code takes the quotient of
  two double logarithms, which \<open>Math.log\<close> only approximates: just below a power of
  1024 that quotient can reach the next integer (at \<open>1024 ^ 5 - 3\<close> to \<open>1024 ^ 5 - 1\<close> the
  code's index is 5), and there \<open>log_index\<close> is one less than the code's index. Away
  from the powers of 1024 the two agree: at 2199023255552 the quotient is 4.1.
\<close>

fun log_index :: "nat \<Rightarrow> nat" where
  "log_index bytes = (if bytes < 1024 then 0 else Suc (log_index (bytes div 1024)))"

declare log_index.simps [simp del]

text \<open>
  \<open>parseFloat((bytes / Math.pow(k, i)).toFixed(2))\<close>, then converted to a string by
  \<open>+\<close>: \<open>toFixed(2)\<close> rounds the quotient \<open>a / b\<close> to hundredths, a tie upwards
  (\<open>toFixed2\<close> is the number of hundredths); \<open>parseFloat\<close> reads the number back, and
  its string has no trailing zeros and no trailing point (\<open>show_hundredths\<close>).
\<close>

definition toFixed2 :: "nat \<Rightarrow> nat \<Rightarrow> nat" where
  "toFixed2 a b = (200 * a + b) div (2 * b)"

definition show_hundredths :: "nat \<Rightarrow> string" where
  "show_hundredths n =
     toString_nat (n div 100) @
     (if n mod 100 = 0 then []
      else if n mod 10 = 0 then ''.'' @ [digit_char (n mod 100 div 10)]
      else ''.'' @ [digit_char (n mod 100 div 10), digit_char (n mod 10)])"

text \<open>
  \<open>sizes[i]\<close>: past the end of the array it is \<open>undefined\<close>, which \<open>+\<close> appends as
  the text \<open>undefined\<close>.
\<close>

definition sizes_at :: "string list \<Rightarrow> nat \<Rightarrow> string" where
  "sizes_at sizes i = (if i < length sizes then sizes ! i else ''undefined'')"

text \<open>The helper of the store (unnamed/part_004, lines 249 to 255).\<close>

definition formatFileSize_store :: "nat \<Rightarrow> string" where
  "formatFileSize_store bytes =
     (if bytes = 0 then ''0 B''
      else let k = 1024;
               sizes = [''B'', ''KB'', ''MB'', ''GB''];
               i = log_index bytes
           in show_hundredths (toFixed2 bytes (k ^ i)) @ '' '' @ sizes_at sizes i)"

text \<open>The copy among the export utilities (frontend/src/main.tsx, lines 106 to 112).\<close>

definition formatFileSize :: "nat \<Rightarrow> string" where
  "formatFileSize bytes =
     (if bytes = 0 then ''0 B''
      else let k = 1024;
               sizes = [''B'', ''KB'', ''MB'', ''GB'', ''TB''];
               i = log_index bytes
           in show_hundredths (toFixed2 bytes (k ^ i)) @ '' '' @ sizes_at sizes i)"

section \<open>Fixtures\<close>

definition task0 :: VideoTask where
  "task0 = \<lparr> id_task = ''t1'', filePath = ''/v/a.mp4'', fileName = ''a.mp4'',
     fileSize = 2048, duration = None, status = pending, progress = 0, stage = idle,
     stageDetail = [], error = None, subtitles = None, createdAt = 1, updatedAt = 1,
     completedAt = None \<rparr>"

definition store0 :: AppState where
  "store0 = \<lparr> tasks = [task0], selectedTaskId = None, isProcessing = False \<rparr>"

definition task_done :: VideoTask where
  "task_done = task0\<lparr> status := completed, progress := 100, stage := completed_stage,
     completedAt := Some 5, updatedAt := 5 \<rparr>"

definition store_done :: AppState where
  "store_done = \<lparr> tasks = [task_done], selectedTaskId = None, isProcessing = False \<rparr>"

definition sv0 :: Service where
  "sv0 = \<lparr> store = store0, emitted = [] \<rparr>"

definition progress_msg :: "real \<Rightarrow> TaskStage \<Rightarrow> SocketEvent" where
  "progress_msg p st = task_progress \<lparr> taskId = ''t1'', stage_p = st, progress_p = p,
     detail = [], timestamp = 0, currentSegment = None, totalSegments = None \<rparr>"

definition raw_sub :: "real \<Rightarrow> real \<Rightarrow> real \<Rightarrow> string \<Rightarrow> SubtitleAdded" where
  "raw_sub i st en txt =
     \<lparr> taskId_d = ''t1'',
       subtitle = Some \<lparr> id_r = i, startTime_r = JNumber st, start_r = JUndefined,
                         endTime_r = JNumber en, end_r = JUndefined,
                         text_r = Some txt, confidence_r = None \<rparr> \<rparr>"

definition arrivals :: "(real \<times> SubtitleAdded) list" where
  "arrivals = [(1, raw_sub 2 3 4.5 ''second''), (2, raw_sub 1 0.5 2 ''first''),
               (3, raw_sub 2 9 10 ''again'')]"

definition entry :: "real \<Rightarrow> real \<Rightarrow> real \<Rightarrow> string \<Rightarrow> string option \<Rightarrow> SubtitleEntry" where
  "entry i st en txt orig =
     \<lparr> id_sub = i, startTime = st, endTime = en, text_sub = txt, translation = None,
       confidence = None, originalText = orig, detectedLang = None, langMismatch = None \<rparr>"

definition two_entries :: "SubtitleEntry list" where
  "two_entries = [entry 1 0.5 2 ''hello'' None, entry 2 3661.25 3662 ''world'' (Some ''monde'')]"

lemmas fixture_defs = sv0_def store0_def task0_def store_done_def task_done_def progress_msg_def
lemmas eval_defs = emit_def updateTask_def spread_def or_else_def no_updates_def
  handleProgressUpdate_def

section \<open>Terminal tasks and updateTask\<close>

lemma length_updateTask: "length (tasks (updateTask now i u s)) = length (tasks s)"
  by (simp add: updateTask_def)

lemma nth_updateTask:
  "k < length (tasks s) \<Longrightarrow>
   tasks (updateTask now i u s) ! k =
     (if id_task (tasks s ! k) = i then (spread (tasks s ! k) u)\<lparr> updatedAt := now \<rparr>
      else tasks s ! k)"
  by (simp add: updateTask_def)

text \<open>
  C1 as the specification states it: a task that has reached \<open>completed\<close>, \<open>failed\<close>
  or \<open>cancelled\<close> is not mutated again, an update being rejected and the record left
  as it was. The store has no such check. Here a completed task is put back to
  \<open>processing\<close> by \<open>updateTask\<close>.
\<close>

theorem C1_terminal_task_is_mutated:
  "status (tasks store_done ! 0) = completed \<and>
   status (tasks (updateTask 9 ''t1'' (no_updates\<lparr> status_u := Some processing \<rparr>) store_done) ! 0)
     = processing \<and>
   updateTask 9 ''t1'' (no_updates\<lparr> status_u := Some processing \<rparr>) store_done \<noteq> store_done"
  by (simp add: store_done_def task_done_def task0_def updateTask_def spread_def or_else_def
      no_updates_def)

text \<open>
  C1, amended: \<open>updateTask\<close> rejects nothing and does not look at the status. Whatever
  the status of a task, terminal or not, a call with its id replaces it by the spread of
  the task and the updates with \<open>updatedAt\<close> set to the time of the call, so a status
  among the updates becomes the task's status; a task is left as it was only when its id
  is not the one given. The list keeps its length and order.
\<close>

theorem C1_updateTask_has_no_status_guard:
  assumes "k < length (tasks s)"
  shows "length (tasks (updateTask now i u s)) = length (tasks s) \<and>
         (id_task (tasks s ! k) = i \<longrightarrow>
            tasks (updateTask now i u s) ! k = (spread (tasks s ! k) u)\<lparr> updatedAt := now \<rparr> \<and>
            status (tasks (updateTask now i u s) ! k) = or_else (status_u u) (status (tasks s ! k))) \<and>
         (id_task (tasks s ! k) \<noteq> i \<longrightarrow> tasks (updateTask now i u s) ! k = tasks s ! k)"
  using assms by (simp add: nth_updateTask length_updateTask spread_def)

theorem C1_updateTask_has_no_status_guard_witness:
  "status (tasks store_done ! 0) = completed \<and>
   status (tasks (updateTask 9 ''t1'' (no_updates\<lparr> status_u := Some pending \<rparr>) store_done) ! 0)
     = pending"
proof -
  have k: "0 < length (tasks store_done)"
    by (simp add: store_done_def)
  have i: "id_task (tasks store_done ! 0) = ''t1''"
    by (simp add: store_done_def task_done_def task0_def)
  have "status (tasks (updateTask 9 ''t1'' (no_updates\<lparr> status_u := Some pending \<rparr>) store_done) ! 0)
        = or_else (status_u (no_updates\<lparr> status_u := Some pending \<rparr>)) (status (tasks store_done ! 0))"
    using C1_updateTask_has_no_status_guard [OF k, of 9 "''t1''"] i by blast
  then show ?thesis
    by (simp add: or_else_def store_done_def task_done_def)
qed

section \<open>What the message handlers change\<close>

lemma handleSubtitleAdded_cases:
  "handleSubtitleAdded now d s = s \<or>
   (\<exists>subs. handleSubtitleAdded now d s =
      updateTask now (taskId_d d) (no_updates\<lparr> subtitles_u := Some (Some subs) \<rparr>) s)"
  by (auto simp: handleSubtitleAdded_def Let_def split: option.splits jsval.splits prod.splits)

lemma length_handleSubtitleAdded:
  "length (tasks (handleSubtitleAdded now d s)) = length (tasks s)"
  using handleSubtitleAdded_cases [of now d s] by (auto simp: length_updateTask)

lemma length_on_message:
  "length (tasks (store (on_message now ev sv))) = length (tasks (store sv))"
  by (cases ev)
     (simp_all add: emit_def length_updateTask length_handleSubtitleAdded
        handleProgressUpdate_def setProcessing_def)

lemma error_updateTask:
  "k < length (tasks s) \<Longrightarrow> error_u u = None \<Longrightarrow>
   error (tasks (updateTask now i u s) ! k) = error (tasks s ! k)"
  by (simp add: nth_updateTask spread_def or_else_def)

lemma error_handleSubtitleAdded:
  "k < length (tasks s) \<Longrightarrow>
   error (tasks (handleSubtitleAdded now d s) ! k) = error (tasks s ! k)"
  using handleSubtitleAdded_cases [of now d s]
  by (auto simp: error_updateTask no_updates_def)

subsection \<open>The error field\<close>

text \<open>
  C6: among the handlers of the service, only the two for a failure (\<open>task_failed\<close>,
  \<open>synthesis_failed\<close>) write the \<open>error\<close> field, and they write it together with the
  status \<open>failed\<close>: whenever a message changes the \<open>error\<close> of a task, the message is one
  of these two for that task's id, the new \<open>error\<close> is the message's, and the task's
  status is then \<open>failed\<close>. The handler of \<open>task_cancelled\<close> leaves \<open>error\<close> as it
  was, so unset where it was unset.
\<close>

theorem C6_error_set_only_with_failed:
  assumes "k < length (tasks (store sv))"
  shows "(error (tasks (store (on_message now ev sv)) ! k) \<noteq> error (tasks (store sv) ! k) \<longrightarrow>
            (\<exists>i err. (ev = task_failed i err \<or> ev = synthesis_failed i err) \<and>
               id_task (tasks (store sv) ! k) = i \<and>
               error (tasks (store (on_message now ev sv)) ! k) = Some err \<and>
               status (tasks (store (on_message now ev sv)) ! k) = failed)) \<and>
         error (tasks (store (on_message now (task_cancelled c) sv)) ! k)
           = error (tasks (store sv) ! k)"
proof (rule conjI)
  show "error (tasks (store (on_message now (task_cancelled c) sv)) ! k)
           = error (tasks (store sv) ! k)"
    using assms by (simp add: emit_def error_updateTask no_updates_def)
next
  show "error (tasks (store (on_message now ev sv)) ! k) \<noteq> error (tasks (store sv) ! k) \<longrightarrow>
            (\<exists>i err. (ev = task_failed i err \<or> ev = synthesis_failed i err) \<and>
               id_task (tasks (store sv) ! k) = i \<and>
               error (tasks (store (on_message now ev sv)) ! k) = Some err \<and>
               status (tasks (store (on_message now ev sv)) ! k) = failed)"
  proof (cases ev)
    case (task_failed i err)
    then show ?thesis
      using assms
      by (auto simp: emit_def no_updates_def nth_updateTask spread_def or_else_def
               split: if_splits)
  next
    case (synthesis_failed i err)
    then show ?thesis
      using assms
      by (auto simp: emit_def no_updates_def nth_updateTask spread_def or_else_def
               split: if_splits)
  qed (use assms in \<open>simp_all add: emit_def error_updateTask error_handleSubtitleAdded
         handleProgressUpdate_def setProcessing_def no_updates_def\<close>)
qed

theorem C6_error_set_only_with_failed_witness:
  "error (tasks (store sv0) ! 0) = None \<and>
   error (tasks (store (on_message 9 (task_failed ''t1'' ''boom'') sv0)) ! 0) = Some ''boom'' \<and>
   status (tasks (store (on_message 9 (task_failed ''t1'' ''boom'') sv0)) ! 0) = failed \<and>
   error (tasks (store (on_message 9 (task_cancelled ''t1'') sv0)) ! 0) = None"
proof -
  have k: "0 < length (tasks (store sv0))"
    by (simp add: fixture_defs)
  have e0: "error (tasks (store sv0) ! 0) = None"
    by (simp add: fixture_defs)
  have changed: "error (tasks (store (on_message 9 (task_failed ''t1'' ''boom'') sv0)) ! 0)
                   \<noteq> error (tasks (store sv0) ! 0)"
    by (simp add: fixture_defs eval_defs)
  from C6_error_set_only_with_failed [OF k, of 9 "task_failed ''t1'' ''boom''" "''t1''"] changed
  have "error (tasks (store (on_message 9 (task_failed ''t1'' ''boom'') sv0)) ! 0) = Some ''boom''"
    and "status (tasks (store (on_message 9 (task_failed ''t1'' ''boom'') sv0)) ! 0) = failed"
    and "error (tasks (store (on_message 9 (task_cancelled ''t1'') sv0)) ! 0)
           = error (tasks (store sv0) ! 0)"
    by auto
  with e0 show ?thesis by simp
qed

subsection \<open>Progress\<close>

text \<open>
  C7 as the specification states it: within one stage the progress of a task stays in
  0 to 100 and never decreases. The handler copies the value of the message. Three
  \<open>task_progress\<close> messages for the stage \<open>transcribing\<close>, with 50, 30 and 150, leave
  the task at 50, then at 30, then at 150.
\<close>

theorem C7_progress_decreases_and_leaves_range:
  "progress (tasks (store (run_messages [(1, progress_msg 50 transcribing)] sv0)) ! 0) = 50 \<and>
   stage (tasks (store (run_messages [(1, progress_msg 50 transcribing)] sv0)) ! 0) = transcribing \<and>
   progress (tasks (store (run_messages [(1, progress_msg 50 transcribing),
                                         (2, progress_msg 30 transcribing)] sv0)) ! 0) = 30 \<and>
   stage (tasks (store (run_messages [(1, progress_msg 50 transcribing),
                                      (2, progress_msg 30 transcribing)] sv0)) ! 0) = transcribing \<and>
   progress (tasks (store (run_messages [(1, progress_msg 50 transcribing),
                                         (2, progress_msg 30 transcribing),
                                         (3, progress_msg 150 transcribing)] sv0)) ! 0) = 150"
  by (simp add: fixture_defs eval_defs)

text \<open>
  C7, amended: \<open>handleProgressUpdate\<close> stores the progress, the stage and the detail of
  the message in every task with the message's task id, as received: it neither clamps
  the value nor compares it with the previous one, and nothing resets it on a new
  stage. The progress of a task therefore stays within 0 to 100 and does not decrease
  whenever the arriving value is within 0 to 100 and not below the task's current one.
\<close>

theorem C7_progress_is_the_update_value:
  assumes "k < length (tasks s)" and "id_task (tasks s ! k) = taskId u"
  shows "progress (tasks (handleProgressUpdate now u s) ! k) = progress_p u \<and>
         stage (tasks (handleProgressUpdate now u s) ! k) = stage_p u \<and>
         stageDetail (tasks (handleProgressUpdate now u s) ! k) = detail u \<and>
         (0 \<le> progress_p u \<and> progress_p u \<le> 100 \<and> progress (tasks s ! k) \<le> progress_p u \<longrightarrow>
            0 \<le> progress (tasks (handleProgressUpdate now u s) ! k) \<and>
            progress (tasks (handleProgressUpdate now u s) ! k) \<le> 100 \<and>
            progress (tasks s ! k) \<le> progress (tasks (handleProgressUpdate now u s) ! k))"
  using assms
  by (simp add: handleProgressUpdate_def nth_updateTask spread_def or_else_def no_updates_def)

theorem C7_progress_is_the_update_value_witness:
  "progress (tasks store0 ! 0) = 0 \<and>
   progress (tasks (handleProgressUpdate 4
      \<lparr> taskId = ''t1'', stage_p = transcribing, progress_p = 40, detail = ''seg 2'',
        timestamp = 4, currentSegment = None, totalSegments = None \<rparr> store0) ! 0) = 40"
proof -
  have k: "0 < length (tasks store0)"
    by (simp add: fixture_defs)
  show ?thesis
    using C7_progress_is_the_update_value [OF k, of
      "\<lparr> taskId = ''t1'', stage_p = transcribing, progress_p = 40, detail = ''seg 2'',
         timestamp = 4, currentSegment = None, totalSegments = None \<rparr>" 4]
    by (simp add: fixture_defs)
qed

subsection \<open>The id of a task\<close>

lemma map_id_updateTask:
  "id_u u = None \<Longrightarrow> map id_task (tasks (updateTask now i u s)) = map id_task (tasks s)"
  by (simp add: updateTask_def spread_def or_else_def)

lemma map_id_handleSubtitleAdded:
  "map id_task (tasks (handleSubtitleAdded now d s)) = map id_task (tasks s)"
  using handleSubtitleAdded_cases [of now d s]
  by (auto simp: map_id_updateTask no_updates_def)

lemma map_id_on_message:
  "map id_task (tasks (store (on_message now ev sv))) = map id_task (tasks (store sv))"
  by (cases ev)
     (simp_all add: emit_def map_id_updateTask map_id_handleSubtitleAdded
        handleProgressUpdate_def setProcessing_def no_updates_def)

text \<open>
  C8 as the specification states it: no update, \<open>updateTask\<close> with arbitrary updates
  included, changes the id of a task. \<open>Partial<VideoTask>\<close> has the key \<open>id\<close>, and the
  spread copies it.
\<close>

theorem C8_updateTask_changes_id:
  "id_task (tasks store0 ! 0) = ''t1'' \<and>
   id_task (tasks (updateTask 9 ''t1'' (no_updates\<lparr> id_u := Some ''t2'' \<rparr>) store0) ! 0) = ''t2''"
  by (simp add: fixture_defs eval_defs)

text \<open>
  C8, amended: \<open>updateTask\<close> keeps the id of every task whenever the updates carry no
  \<open>id\<close> key; every message handler of the service keeps the ids of all tasks; and
  \<open>addTask\<close> keeps the ids of the tasks already in the store, appending the new task's.
  With updates that carry an \<open>id\<close> key, \<open>updateTask\<close> replaces the id of the tasks
  with the given id by it.
\<close>

theorem C8_id_kept_unless_updates_carry_id:
  "(id_u u = None \<longrightarrow> map id_task (tasks (updateTask now i u s)) = map id_task (tasks s)) \<and>
   map id_task (tasks (store (on_message now ev sv))) = map id_task (tasks (store sv)) \<and>
   map id_task (tasks (addTask t s)) = map id_task (tasks s) @ [id_task t] \<and>
   (id_u v = Some j \<and> k < length (tasks s) \<and> id_task (tasks s ! k) = i \<longrightarrow>
      id_task (tasks (updateTask now i v s) ! k) = j)"
  by (simp add: map_id_updateTask map_id_on_message addTask_def nth_updateTask spread_def
      or_else_def)

theorem C8_id_kept_unless_updates_carry_id_witness:
  "map id_task (tasks (updateTask 9 ''t1''
      (no_updates\<lparr> status_u := Some failed, fileName_u := Some ''b.mp4'' \<rparr>) store0)) = [''t1''] \<and>
   id_task (tasks store0 ! 0) = ''t1'' \<and>
   id_task (tasks (updateTask 9 ''t1'' (no_updates\<lparr> id_u := Some ''t3'' \<rparr>) store0) ! 0) = ''t3''"
  using C8_id_kept_unless_updates_carry_id
    [of "no_updates\<lparr> status_u := Some failed, fileName_u := Some ''b.mp4'' \<rparr>" 9 "''t1''" store0
        _ _ _ "no_updates\<lparr> id_u := Some ''t3'' \<rparr>" "''t3''" 0]
  by (simp add: fixture_defs no_updates_def)

subsection \<open>A second cancellation\<close>

text \<open>
  C9 as the specification states it: handling the cancellation of a task already
  cancelled changes nothing and emits no second \<open>cancelled\<close> event. The handler calls
  \<open>updateTask\<close> and \<open>emit\<close> unconditionally: after two \<open>task_cancelled\<close> messages the
  listeners have been called twice and \<open>updatedAt\<close> has moved from 5 to 9.
\<close>

theorem C9_second_cancel_emits_and_mutates:
  "status (tasks (store (on_message 5 (task_cancelled ''t1'') sv0)) ! 0) = cancelled \<and>
   emitted (on_message 5 (task_cancelled ''t1'') sv0) = [(''cancelled'', task_cancelled ''t1'')] \<and>
   emitted (on_message 9 (task_cancelled ''t1'') (on_message 5 (task_cancelled ''t1'') sv0))
     = [(''cancelled'', task_cancelled ''t1''), (''cancelled'', task_cancelled ''t1'')] \<and>
   updatedAt (tasks (store (on_message 5 (task_cancelled ''t1'') sv0)) ! 0) = 5 \<and>
   updatedAt (tasks (store (on_message 9 (task_cancelled ''t1'')
                (on_message 5 (task_cancelled ''t1'') sv0))) ! 0) = 9"
  by (simp add: fixture_defs eval_defs)

lemma updateTask_cancel_twice:
  "updateTask n2 i (no_updates\<lparr> status_u := Some cancelled, stageDetail_u := Some detail_cancelled \<rparr>)
     (updateTask n1 i (no_updates\<lparr> status_u := Some cancelled,
                                   stageDetail_u := Some detail_cancelled \<rparr>) s)
   = (updateTask n1 i (no_updates\<lparr> status_u := Some cancelled,
                                    stageDetail_u := Some detail_cancelled \<rparr>) s)
       \<lparr> tasks := map (\<lambda>t. if id_task t = i then t\<lparr> updatedAt := n2 \<rparr> else t)
           (tasks (updateTask n1 i (no_updates\<lparr> status_u := Some cancelled,
                                                stageDetail_u := Some detail_cancelled \<rparr>) s)) \<rparr>"
  by (auto simp: updateTask_def spread_def or_else_def no_updates_def)

text \<open>
  C9, amended: handling \<open>task_cancelled\<close> a second time for the same id leaves every
  field of every task as the first handling left it, except \<open>updatedAt\<close> of the tasks
  with that id, which is set to the time of the second call; the rest of the store is
  unchanged; and the listeners of \<open>cancelled\<close> are called once more.
\<close>

theorem C9_second_cancel_touches_only_updatedAt:
  "store (on_message n2 (task_cancelled i) (on_message n1 (task_cancelled i) sv))
     = (store (on_message n1 (task_cancelled i) sv))
         \<lparr> tasks := map (\<lambda>t. if id_task t = i then t\<lparr> updatedAt := n2 \<rparr> else t)
                       (tasks (store (on_message n1 (task_cancelled i) sv))) \<rparr> \<and>
   emitted (on_message n2 (task_cancelled i) (on_message n1 (task_cancelled i) sv))
     = emitted (on_message n1 (task_cancelled i) sv) @ [(''cancelled'', task_cancelled i)]"
  by (simp add: emit_def updateTask_cancel_twice)

theorem C9_second_cancel_touches_only_updatedAt_witness:
  "tasks (store (on_message 9 (task_cancelled ''t1'') (on_message 5 (task_cancelled ''t1'') sv0)))
     = [(tasks (store (on_message 5 (task_cancelled ''t1'') sv0)) ! 0)\<lparr> updatedAt := 9 \<rparr>] \<and>
   length (emitted (on_message 9 (task_cancelled ''t1'') (on_message 5 (task_cancelled ''t1'') sv0)))
     = 2"
  using C9_second_cancel_touches_only_updatedAt [of 9 "''t1''" 5 sv0]
  by (simp add: fixture_defs eval_defs)

section \<open>Incremental subtitles\<close>

lemma sort_key_snoc_sorted:
  fixes f :: "'a \<Rightarrow> 'b::linorder"
  assumes "sorted (map f xs)"
  shows "sort_key f (xs @ [x]) =
           filter (\<lambda>y. f y \<le> f x) xs @ [x] @ filter (\<lambda>y. f x < f y) xs"
  using assms
proof (induction xs)
  case Nil
  then show ?case by simp
next
  case (Cons y ys)
  then have ih: "sort_key f (ys @ [x]) =
           filter (\<lambda>z. f z \<le> f x) ys @ [x] @ filter (\<lambda>z. f x < f z) ys"
    and le: "\<forall>z\<in>set ys. f y \<le> f z"
    by auto
  show ?case
  proof (cases "f y \<le> f x")
    case True
    have "insort_key f y (filter (\<lambda>z. f z \<le> f x) ys @ [x] @ filter (\<lambda>z. f x < f z) ys)
          = y # (filter (\<lambda>z. f z \<le> f x) ys @ [x] @ filter (\<lambda>z. f x < f z) ys)"
      using le True by (intro insort_is_Cons) auto
    with True ih show ?thesis by simp
  next
    case False
    then have lt: "f x < f y" by simp
    with le have all: "\<forall>z\<in>set ys. f x < f z" by fastforce
    then have "filter (\<lambda>z. f z \<le> f x) ys = []" and "filter (\<lambda>z. f x < f z) ys = ys"
      by (auto simp: filter_empty_conv filter_id_conv)
    moreover have "insort_key f y ys = y # ys"
      using le by (intro insort_is_Cons) auto
    ultimately show ?thesis using ih lt by simp
  qed
qed

lemma distinct_map_sort_key:
  "distinct (map g (sort_key f xs)) = distinct (map g xs)"
  by (simp add: distinct_map)

lemma handleSubtitleAdded_accept:
  assumes "getTaskById (taskId_d d) s = Some task"
    and "normalize_subtitle (subtitle d) = Some n"
    and "id_sub n \<notin> id_sub ` set (or_else (subtitles task) [])"
  shows "handleSubtitleAdded now d s =
           updateTask now (taskId_d d)
             (no_updates\<lparr> subtitles_u :=
                Some (Some (sort_key startTime (or_else (subtitles task) [] @ [n]))) \<rparr>) s"
  using assms by (auto simp: handleSubtitleAdded_def Let_def find_None_iff image_iff)

lemma handleSubtitleAdded_reject:
  assumes "getTaskById (taskId_d d) s = None \<or> normalize_subtitle (subtitle d) = None \<or>
           (\<exists>task n. getTaskById (taskId_d d) s = Some task \<and> normalize_subtitle (subtitle d) = Some n \<and>
              id_sub n \<in> id_sub ` set (or_else (subtitles task) []))"
  shows "handleSubtitleAdded now d s = s"
  using assms
  by (auto simp: handleSubtitleAdded_def Let_def find_None_iff image_iff split: option.splits)

lemma subtitles_ok_handleSubtitleAdded:
  assumes inv: "\<forall>t\<in>set (tasks s). subtitles_ok t"
  shows "\<forall>t\<in>set (tasks (handleSubtitleAdded now d s)). subtitles_ok t"
proof (cases "getTaskById (taskId_d d) s")
  case None
  then show ?thesis using inv by (simp add: handleSubtitleAdded_def)
next
  case (Some task)
  then have "task \<in> set (tasks s)"
    by (auto simp: getTaskById_def find_Some_iff)
  with inv have ok: "subtitles_ok task" by simp
  show ?thesis
  proof (cases "normalize_subtitle (subtitle d)")
    case None
    then show ?thesis using inv Some by (simp add: handleSubtitleAdded_def)
  next
    case (Some n)
    show ?thesis
    proof (cases "id_sub n \<in> id_sub ` set (or_else (subtitles task) [])")
      case True
      then have "handleSubtitleAdded now d s = s"
        using \<open>getTaskById (taskId_d d) s = Some task\<close> Some
        by (intro handleSubtitleAdded_reject) blast
      then show ?thesis using inv by simp
    next
      case False
      have eq: "handleSubtitleAdded now d s =
           updateTask now (taskId_d d)
             (no_updates\<lparr> subtitles_u :=
                Some (Some (sort_key startTime (or_else (subtitles task) [] @ [n]))) \<rparr>) s"
        using \<open>getTaskById (taskId_d d) s = Some task\<close> Some False
        by (rule handleSubtitleAdded_accept)
      have new_ok: "sorted (map startTime (sort_key startTime (or_else (subtitles task) [] @ [n])))
          \<and> distinct (map id_sub (sort_key startTime (or_else (subtitles task) [] @ [n])))"
        using ok False by (simp add: subtitles_ok_def distinct_map_sort_key sorted_sort_key)
      show ?thesis
        unfolding eq using inv new_ok
        by (auto simp: updateTask_def subtitles_ok_def spread_def or_else_def no_updates_def)
    qed
  qed
qed

lemma subtitles_ok_run:
  "\<forall>t\<in>set (tasks (store sv)). subtitles_ok t \<Longrightarrow>
   \<forall>t\<in>set (tasks (store (run_subtitle_added ds sv))). subtitles_ok t"
proof (induction ds arbitrary: sv)
  case Nil
  then show ?case by simp
next
  case (Cons a ds)
  obtain now d where a: "a = (now, d)" by (cases a)
  have "\<forall>t\<in>set (tasks (store (on_message now (subtitle_added d) sv))). subtitles_ok t"
    using subtitles_ok_handleSubtitleAdded [OF Cons.prems, of now d] by (simp add: emit_def)
  from Cons.IH [OF this] show ?case by (simp add: a)
qed

lemma arrivals_result:
  "map (\<lambda>s. (id_sub s, startTime s, text_sub s))
     (or_else (subtitles (tasks (store (run_subtitle_added arrivals sv0)) ! 0)) [])
   = [(1, 0.5, ''first''), (2, 3, ''second'')]"
  by (simp add: arrivals_def raw_sub_def fixture_defs emit_def handleSubtitleAdded_def
      getTaskById_def normalize_subtitle_def pick_time_def or_else_def updateTask_def
      spread_def no_updates_def)

lemma length_run_subtitle_added:
  "length (tasks (store (run_subtitle_added ds sv))) = length (tasks (store sv))"
proof (induction ds arbitrary: sv)
  case Nil
  then show ?case by simp
next
  case (Cons a ds)
  obtain now d where "a = (now, d)" by (cases a)
  with Cons.IH [of "on_message now (subtitle_added d) sv"] show ?case
    by (simp only: run_subtitle_added.simps length_on_message)
qed

text \<open>
  C2: if the subtitle lists of the tasks in the store are ordered by \<open>startTime\<close> and
  hold no id twice (as the empty or undefined list of a new task does), then after any
  sequence of \<open>subtitle_added\<close> arrivals, in any order, they still are. For one
  arrival whose task exists and whose times are numbers: when its id is already in the
  task's list the store is left as it is; otherwise the task's list becomes the old
  entries up to the new \<open>startTime\<close>, the new entry, and the old entries after it.
\<close>

theorem C2_subtitles_sorted_without_duplicate_ids:
  assumes "\<forall>t\<in>set (tasks (store sv)). subtitles_ok t"
  shows "(\<forall>t\<in>set (tasks (store (run_subtitle_added ds sv))). subtitles_ok t) \<and>
         (\<forall>task n. getTaskById (taskId_d d) (store sv) = Some task \<and>
                    normalize_subtitle (subtitle d) = Some n \<longrightarrow>
            (id_sub n \<in> id_sub ` set (or_else (subtitles task) []) \<longrightarrow>
               handleSubtitleAdded now d (store sv) = store sv) \<and>
            (id_sub n \<notin> id_sub ` set (or_else (subtitles task) []) \<longrightarrow>
               handleSubtitleAdded now d (store sv) =
                 updateTask now (taskId_d d)
                   (no_updates\<lparr> subtitles_u := Some (Some
                      (filter (\<lambda>s. startTime s \<le> startTime n) (or_else (subtitles task) [])
                       @ [n]
                       @ filter (\<lambda>s. startTime n < startTime s) (or_else (subtitles task) []))) \<rparr>)
                   (store sv)))"
proof (intro conjI allI impI)
  show "\<forall>t\<in>set (tasks (store (run_subtitle_added ds sv))). subtitles_ok t"
    using assms by (rule subtitles_ok_run)
next
  fix task n
  assume h: "getTaskById (taskId_d d) (store sv) = Some task \<and>
             normalize_subtitle (subtitle d) = Some n"
  assume "id_sub n \<in> id_sub ` set (or_else (subtitles task) [])"
  with h show "handleSubtitleAdded now d (store sv) = store sv"
    by (intro handleSubtitleAdded_reject) blast
next
  fix task n
  assume h: "getTaskById (taskId_d d) (store sv) = Some task \<and>
             normalize_subtitle (subtitle d) = Some n"
  assume fresh: "id_sub n \<notin> id_sub ` set (or_else (subtitles task) [])"
  from h have "task \<in> set (tasks (store sv))"
    by (auto simp: getTaskById_def find_Some_iff)
  with assms have "sorted (map startTime (or_else (subtitles task) []))"
    by (simp add: subtitles_ok_def)
  then have "sort_key startTime (or_else (subtitles task) [] @ [n]) =
               filter (\<lambda>s. startTime s \<le> startTime n) (or_else (subtitles task) [])
               @ [n]
               @ filter (\<lambda>s. startTime n < startTime s) (or_else (subtitles task) [])"
    by (rule sort_key_snoc_sorted)
  with handleSubtitleAdded_accept [of d "store sv" task n now] h fresh
  show "handleSubtitleAdded now d (store sv) =
          updateTask now (taskId_d d)
            (no_updates\<lparr> subtitles_u := Some (Some
               (filter (\<lambda>s. startTime s \<le> startTime n) (or_else (subtitles task) [])
                @ [n]
                @ filter (\<lambda>s. startTime n < startTime s) (or_else (subtitles task) []))) \<rparr>)
            (store sv)"
    by simp
qed

theorem C2_subtitles_sorted_without_duplicate_ids_witness:
  "subtitles_ok (tasks (store (run_subtitle_added arrivals sv0)) ! 0) \<and>
   map (\<lambda>s. (id_sub s, startTime s, text_sub s))
     (or_else (subtitles (tasks (store (run_subtitle_added arrivals sv0)) ! 0)) [])
   = [(1, 0.5, ''first''), (2, 3, ''second'')]"
proof -
  have ok0: "\<forall>t\<in>set (tasks (store sv0)). subtitles_ok t"
    by (simp add: fixture_defs subtitles_ok_def or_else_def)
  have len: "0 < length (tasks (store (run_subtitle_added arrivals sv0)))"
    by (simp add: length_run_subtitle_added fixture_defs)
  from C2_subtitles_sorted_without_duplicate_ids [OF ok0, of arrivals]
  have "\<forall>t\<in>set (tasks (store (run_subtitle_added arrivals sv0))). subtitles_ok t"
    by blast
  with len have "subtitles_ok (tasks (store (run_subtitle_added arrivals sv0)) ! 0)"
    by (simp add: nth_mem)
  with arrivals_result show ?thesis by simp
qed

section \<open>SRT export\<close>

lemma replicate_small:
  "replicate 2 c = [c, c]" "replicate 3 c = [c, c, c]"
  by (simp_all add: numeral_2_eq_2 numeral_3_eq_3)

lemmas toString_nat_eval =
  toString_nat.simps [of 0] toString_nat.simps [of 1] toString_nat.simps [of "Suc 0"]
  toString_nat.simps [of "Suc (Suc 0)"] toString_nat.simps [of "numeral k"] for k

lemmas cue_eval = toString_nat_eval digit_char_def generateSrtContent_def srt_cues_def
  srt_cue_def cue_content_def or_text_def falsy_def enumerate_eq_zip nl_def entry_def










subsection \<open>Rounding to doubles\<close>

lemma powi_less_D:
  assumes "(2::real) powi a < 2 powi b"
  shows "a < b"
proof (rule ccontr)
  assume "\<not> a < b"
  then have "(2::real) powi b \<le> 2 powi a"
    by (intro power_int_increasing) simp_all
  with assms show False by simp
qed

lemma expo_bounds:
  "0 < x \<Longrightarrow> 2 powi expo x \<le> x \<and> x < 2 powi (expo x + 1)"
proof (induction x rule: expo.induct)
  case (1 x)
  consider "2 \<le> x" | "x < 1" | "1 \<le> x" "x < 2" by linarith
  then show ?case
  proof cases
    case 1
    then have e: "expo x = expo (x / 2) + 1"
      by (subst expo.simps) simp
    have "2 powi expo (x / 2) \<le> x / 2 \<and> x / 2 < 2 powi (expo (x / 2) + 1)"
      using "1.IH"(1) 1 "1.prems" by simp
    then show ?thesis
      unfolding e by (simp add: power_int_add field_simps)
  next
    case 2
    then have e: "expo x = expo (2 * x) - 1"
      using "1.prems" by (subst expo.simps) simp
    have "2 powi expo (2 * x) \<le> 2 * x \<and> 2 * x < 2 powi (expo (2 * x) + 1)"
      using "1.IH"(2) 2 "1.prems" by simp
    then show ?thesis
      unfolding e by (simp add: power_int_add power_int_diff field_simps)
  next
    case 3
    then have "expo x = 0"
      by (subst expo.simps) simp
    with 3 show ?thesis by simp
  qed
qed

lemma expo_unique:
  assumes "2 powi e \<le> x" and "x < 2 powi (e + 1)"
  shows "expo x = e"
proof -
  have pos: "0 < x"
    using assms(1) zero_less_power_int [of "2::real" e] by linarith
  note b = expo_bounds [OF pos]
  have "2 powi e < (2::real) powi (expo x + 1)"
    using assms(1) b by linarith
  then have "e < expo x + 1"
    by (rule powi_less_D)
  moreover have "2 powi expo x < (2::real) powi (e + 1)"
    using assms(2) b by linarith
  then have "expo x < e + 1"
    by (rule powi_less_D)
  ultimately show ?thesis by simp
qed

lemma expo_mono:
  assumes "0 < x" and "x \<le> y"
  shows "expo x \<le> expo y"
proof -
  have "2 powi expo x \<le> x" using expo_bounds [OF assms(1)] by simp
  also have "x \<le> y" by fact
  also have "y < 2 powi (expo y + 1)" using expo_bounds [of y] assms by simp
  finally have "expo x < expo y + 1"
    by (rule powi_less_D)
  then show ?thesis by simp
qed



lemma round_ties_even_of_int [simp]: "round_ties_even (of_int k) = k"
  by (simp add: round_ties_even_def)

lemma round_ties_even_le: "y \<le> of_int k \<Longrightarrow> round_ties_even y \<le> k"
proof -
  assume a: "y \<le> of_int k"
  show ?thesis
  proof (cases "y = of_int k")
    case True
    then show ?thesis by simp
  next
    case False
    with a have "y < of_int k" by simp
    then have "\<lfloor>y\<rfloor> < k" by (simp add: floor_less_iff)
    then show ?thesis
      by (simp add: round_ties_even_def Let_def)
  qed
qed

lemma round_ties_even_ge: "of_int k \<le> y \<Longrightarrow> k \<le> round_ties_even y"
proof -
  assume "of_int k \<le> y"
  then have "k \<le> \<lfloor>y\<rfloor>" by (simp add: le_floor_iff)
  then show ?thesis
    by (simp add: round_ties_even_def Let_def)
qed

lemma round_ties_even_below_half:
  assumes "y < of_int k + 1 / 2"
  shows "round_ties_even y \<le> k"
proof (cases "y < of_int k")
  case True
  then show ?thesis by (intro round_ties_even_le) simp
next
  case False
  then have "\<lfloor>y\<rfloor> = k"
    using assms by (intro floor_unique) simp_all
  then show ?thesis
    using assms by (simp add: round_ties_even_def Let_def)
qed

lemma round_ties_even_0 [simp]: "round_ties_even 0 = 0"
  using round_ties_even_of_int [of 0] by simp

lemma powi_split: "a = int n + b \<Longrightarrow> (2::real) powi a = 2 ^ n * 2 powi b"
  by (simp add: power_int_add)

lemma ulp_pos: "0 < ulp x"
  by (simp add: ulp_def)

lemma ulp_abs: "ulp \<bar>x\<bar> = ulp x"
  by (simp add: ulp_def)

lemma ulp_mono:
  assumes "0 < x" and "x \<le> y"
  shows "\<exists>n::nat. ulp y = 2 ^ n * ulp x"
proof -
  have le: "max (expo x) (- 1022) \<le> max (expo y) (- 1022)"
    using expo_mono [OF assms] by simp
  define n where "n = nat (max (expo y) (- 1022) - max (expo x) (- 1022))"
  have "max (expo y) (- 1022) - 52 = int n + (max (expo x) (- 1022) - 52)"
    using le by (simp add: n_def)
  then have "(2::real) powi (max (expo y) (- 1022) - 52)
               = 2 ^ n * 2 powi (max (expo x) (- 1022) - 52)"
    by (rule powi_split)
  then have "ulp y = 2 ^ n * ulp x"
    using assms by (simp add: ulp_def)
  then show ?thesis ..
qed


lemma double_round_le:
  assumes "0 < x" and "x \<le> d" and "is_double d"
  shows "double_round x \<le> d"
proof -
  obtain n :: nat where n: "ulp d = 2 ^ n * ulp x"
    using ulp_mono [OF assms(1,2)] by blast
  define K where "K = round_ties_even (d / ulp d) * 2 ^ n"
  have "d = of_int (round_ties_even (d / ulp d)) * ulp d"
    using assms(3) by (simp add: is_double_def double_round_def)
  then have d: "d = of_int K * ulp x"
    by (simp add: K_def n)
  have "x / ulp x \<le> of_int K"
    using assms(2) ulp_pos [of x] by (simp add: d field_simps)
  then have "round_ties_even (x / ulp x) \<le> K"
    by (rule round_ties_even_le)
  then have "of_int (round_ties_even (x / ulp x)) * ulp x \<le> of_int K * ulp x"
    using ulp_pos [of x] by (simp add: mult_le_cancel_right)
  then show ?thesis
    by (simp add: double_round_def d)
qed

lemma is_double_rep:
  assumes "\<bar>m\<bar> < 2 ^ 53" and "- 1074 \<le> e"
  shows "is_double (of_int m * 2 powi e)"
proof (cases "m = 0")
  case True
  then show ?thesis by (simp add: is_double_def double_round_def)
next
  case False
  define x :: real where "x = of_int m * 2 powi e"
  have ax: "\<bar>x\<bar> = of_int \<bar>m\<bar> * 2 powi e"
    by (simp add: x_def abs_mult)
  have pos: "0 < \<bar>x\<bar>"
    using False by (simp add: x_def)
  have "\<bar>x\<bar> < 2 ^ 53 * 2 powi e"
  proof -
    have "(of_int \<bar>m\<bar> :: real) < of_int (2 ^ 53)"
      using assms(1) by (simp only: of_int_less_iff)
    moreover have "0 < (2::real) powi e" by simp
    ultimately show ?thesis
      unfolding ax by (simp add: mult_less_cancel_right not_le)
  qed
  also have "\<dots> = 2 powi (e + 53)"
    by (simp add: power_int_add)
  finally have "2 powi expo \<bar>x\<bar> < (2::real) powi (e + 53)"
    using expo_bounds [OF pos] by linarith
  then have E: "expo \<bar>x\<bar> < e + 53"
    by (rule powi_less_D)
  define p where "p = nat (e + 52 - max (expo \<bar>x\<bar>) (- 1022))"
  have "e = int p + (max (expo \<bar>x\<bar>) (- 1022) - 52)"
    using E assms(2) by (simp add: p_def)
  then have "(2::real) powi e = 2 ^ p * 2 powi (max (expo \<bar>x\<bar>) (- 1022) - 52)"
    by (rule powi_split)
  then have pe: "(2::real) powi e = 2 ^ p * ulp x"
    by (simp add: ulp_def)
  define u where "u = ulp x"
  have upos: "0 < u" by (simp add: u_def ulp_pos)
  have pe': "(2::real) powi e = 2 ^ p * u"
    by (simp add: pe u_def)
  have xu: "of_int m * 2 powi e = of_int (m * 2 ^ p) * u"
    by (simp add: pe')
  have "of_int m * 2 powi e / u = of_int (m * 2 ^ p)"
    using upos by (simp add: pe')
  then have "round_ties_even (of_int m * 2 powi e / u) = m * 2 ^ p"
    by (simp only: round_ties_even_of_int)
  then have "of_int (round_ties_even (of_int m * 2 powi e / u)) * u = of_int m * 2 powi e"
    by (simp only: xu)
  then show ?thesis
    by (simp add: is_double_def double_round_def u_def x_def)
qed

lemma double_round_ge_int:
  assumes "0 < x" and "x < 2 ^ 53" and "of_int n \<le> x"
  shows "of_int n \<le> double_round x"
proof -
  have "2 powi expo x \<le> x" using expo_bounds [OF assms(1)] by simp
  also have "x < 2 powi 53" using assms(2) by simp
  finally have "expo x < 53" by (rule powi_less_D)
  define p where "p = nat (52 - max (expo x) (- 1022))"
  have "0 = int p + (max (expo x) (- 1022) - 52)"
    using \<open>expo x < 53\<close> by (simp add: p_def)
  then have "(2::real) powi 0 = 2 ^ p * 2 powi (max (expo x) (- 1022) - 52)"
    by (rule powi_split)
  then have one: "1 = 2 ^ p * ulp x"
    using assms(1) by (simp add: ulp_def)
  have "of_int (n * 2 ^ p) \<le> x / ulp x"
  proof -
    have "of_int n * (2 ^ p * ulp x) \<le> x"
      using assms(3) by (simp flip: one)
    then show ?thesis
      using ulp_pos [of x] by (simp add: field_simps)
  qed
  then have "n * 2 ^ p \<le> round_ties_even (x / ulp x)"
    by (rule round_ties_even_ge)
  then have "(of_int (n * 2 ^ p) :: real) \<le> of_int (round_ties_even (x / ulp x))"
    by (simp only: of_int_le_iff)
  then have le: "of_int (n * 2 ^ p) * ulp x \<le> of_int (round_ties_even (x / ulp x)) * ulp x"
    using ulp_pos [of x] by (simp only: mult_le_cancel_right) simp
  have "of_int n = of_int n * (2 ^ p * ulp x)"
    by (simp flip: one)
  also have "\<dots> = of_int (n * 2 ^ p) * ulp x"
    by simp
  also note le
  finally show ?thesis
    by (simp add: double_round_def)
qed


lemma ulp_eq:
  assumes "2 powi e \<le> x" and "x < 2 powi (e + 1)" and "- 1022 \<le> e"
  shows "ulp x = 2 powi (e - 52)"
proof -
  have "0 < x"
    using assms(1) zero_less_power_int [of "2::real" e] by linarith
  then have "\<bar>x\<bar> = x" by simp
  moreover have "expo x = e"
    using assms(1,2) by (rule expo_unique)
  ultimately show ?thesis
    using assms(3) by (simp add: ulp_def)
qed






lemma round_ties_even_above_half:
  assumes "of_int k - 1 / 2 < y"
  shows "k \<le> round_ties_even y"
proof (cases "of_int k \<le> y")
  case True
  then show ?thesis by (rule round_ties_even_ge)
next
  case False
  then have "\<lfloor>y\<rfloor> = k - 1"
    using assms by (intro floor_unique) simp_all
  then show ?thesis
    using assms by (simp add: round_ties_even_def Let_def)
qed

lemma double_round_0 [simp]: "double_round 0 = 0"
  by (simp add: double_round_def)

lemma double_round_le0:
  assumes "0 \<le> x" and "x \<le> d" and "is_double d"
  shows "double_round x \<le> d"
proof (cases "x = 0")
  case True
  with assms(2) show ?thesis by simp
next
  case False
  with assms(1) have "0 < x" by simp
  then show ?thesis using assms(2,3) by (rule double_round_le)
qed

lemma is_double_ratio:
  assumes "\<bar>m\<bar> < 2 ^ 53" and "n \<le> 1074"
  shows "is_double (of_int m / 2 ^ n)"
proof -
  have "is_double (of_int m * 2 powi (- int n))"
    using assms by (intro is_double_rep) simp_all
  then show ?thesis
    by (simp add: power_int_minus_divide)
qed


lemma double_round_eval:
  assumes "2 powi e \<le> x" and "x < 2 powi (e + 1)" and "- 1022 \<le> e"
    and "\<bar>x / 2 powi (e - 52) - of_int n\<bar> < 1 / 2"
  shows "double_round x = of_int n * 2 powi (e - 52)"
proof -
  have u: "ulp x = 2 powi (e - 52)"
    using assms(1-3) by (rule ulp_eq)
  have a: "x / ulp x < of_int n + 1 / 2" and b: "of_int n - 1 / 2 < x / ulp x"
    unfolding u using assms(4) by linarith+
  have "round_ties_even (x / ulp x) \<le> n"
    using a by (rule round_ties_even_below_half)
  moreover have "n \<le> round_ties_even (x / ulp x)"
    using b by (rule round_ties_even_above_half)
  ultimately show ?thesis
    by (simp add: double_round_def u)
qed

lemma floor_double_round:
  assumes "0 \<le> x" and "of_int n \<le> x" and "x \<le> d" and "d < of_int n + 1"
    and "is_double d" and "d < 2 ^ 53"
  shows "\<lfloor>double_round x\<rfloor> = n"
proof (rule floor_unique)
  show "of_int n \<le> double_round x"
  proof (cases "x = 0")
    case True
    with assms(2) show ?thesis by simp
  next
    case False
    with assms(1) have "0 < x" by simp
    moreover have "x < 2 ^ 53" using assms(3,6) by linarith
    ultimately show ?thesis using assms(2) by (rule double_round_ge_int)
  qed
  have "double_round x \<le> d"
    using assms(1,3,5) by (rule double_round_le0)
  with assms(4) show "double_round x < of_int n + 1" by linarith
qed







subsection \<open>The time fields\<close>

lemma floor_double_round_half:
  assumes "0 \<le> n" and "n < 2 ^ 51" and "of_int n \<le> x" and "x \<le> of_int n + 1 / 2"
  shows "\<lfloor>double_round x\<rfloor> = n"
proof -
  have "is_double (of_int (2 * n + 1) / 2 ^ 1)"
    using assms(1,2) by (intro is_double_ratio) simp_all
  then have d: "is_double (of_int n + 1 / 2)"
    by (simp add: add_divide_distrib)
  have "(of_int n :: real) < of_int (2 ^ 51)"
    using assms(2) by (simp only: of_int_less_iff)
  then have "(of_int n :: real) + 1 / 2 < 2 ^ 53"
    by simp
  moreover have "0 \<le> x"
    using assms(1,3) by (meson of_int_0_le_iff order_trans)
  ultimately show ?thesis
    using assms(3,4) d by (intro floor_double_round [where d = "of_int n + 1 / 2"]) simp_all
qed

lemma formatSrtTime_fields:
  assumes "\<lfloor>double_round (t / 3600)\<rfloor> = h"
    and "\<lfloor>double_round (js_rem t 3600 / 60)\<rfloor> = m"
    and "\<lfloor>double_round (js_rem t 1 * 1000)\<rfloor> = ms"
  shows "formatSrtTime t =
           padStart 2 CHR ''0'' (toString_int h) @ '':'' @
           padStart 2 CHR ''0'' (toString_int m) @ '':'' @
           padStart 2 CHR ''0'' (toString_int \<lfloor>js_rem t 60\<rfloor>) @ '','' @
           padStart 3 CHR ''0'' (toString_int ms)"
  using assms by (simp add: formatSrtTime_def)

lemma formatSrtTime_half:
  assumes "0 \<le> h" and "h < 2 ^ 51"
    and "of_int h \<le> t / 3600" and "t / 3600 \<le> of_int h + 1 / 2"
    and "0 \<le> m" and "m < 2 ^ 51"
    and "of_int m \<le> js_rem t 3600 / 60" and "js_rem t 3600 / 60 \<le> of_int m + 1 / 2"
    and "0 \<le> ms" and "ms < 2 ^ 51"
    and "of_int ms \<le> js_rem t 1 * 1000" and "js_rem t 1 * 1000 \<le> of_int ms + 1 / 2"
  shows "formatSrtTime t =
           padStart 2 CHR ''0'' (toString_int h) @ '':'' @
           padStart 2 CHR ''0'' (toString_int m) @ '':'' @
           padStart 2 CHR ''0'' (toString_int \<lfloor>js_rem t 60\<rfloor>) @ '','' @
           padStart 3 CHR ''0'' (toString_int ms)"
proof (rule formatSrtTime_fields)
  show "\<lfloor>double_round (t / 3600)\<rfloor> = h"
    using assms(1-4) by (rule floor_double_round_half)
  show "\<lfloor>double_round (js_rem t 3600 / 60)\<rfloor> = m"
    using assms(5-8) by (rule floor_double_round_half)
  show "\<lfloor>double_round (js_rem t 1 * 1000)\<rfloor> = ms"
    using assms(9-12) by (rule floor_double_round_half)
qed

lemmas pad_eval = padStart_def toString_int_def toString_nat_eval digit_char_def
  replicate_small js_rem_def js_trunc_def

lemma formatSrtTime_values:
  "formatSrtTime 0.5 = ''00:00:00,500''"
  "formatSrtTime 2 = ''00:00:02,000''"
  "formatSrtTime 3661.25 = ''01:01:01,250''"
  "formatSrtTime 3662 = ''01:01:02,000''"
  "formatSrtTime 360000 = ''100:00:00,000''"
  "formatSrtTime 360001 = ''100:00:01,000''"
  using formatSrtTime_half [of 0 "0.5" 0 500] formatSrtTime_half [of 0 2 0 0]
    formatSrtTime_half [of 1 "3661.25" 1 250] formatSrtTime_half [of 1 3662 1 0]
    formatSrtTime_half [of 100 360000 0 0] formatSrtTime_half [of 100 360001 0 0]
  by (simp_all add: pad_eval)

text \<open>
  The literals \<open>2.3\<close> and \<open>1.001\<close> denote the doubles nearest to them. Their
  fractional parts times 1000 round to doubles just below 300 and below 1, so the code
  prints 299 and 000 milliseconds.
\<close>

lemma double_round_2_3: "double_round 2.3 = 2589569785738035 / 1125899906842624"
  using double_round_eval [of 1 "2.3" 5179139571476070]
  by (simp add: power_int_minus_divide)

lemma double_round_1_001: "double_round 1.001 = 2254051613498933 / 2251799813685248"
  using double_round_eval [of 0 "1.001" 4508103226997866]
  by (simp add: power_int_minus_divide)

lemma formatSrtTime_2_3: "formatSrtTime (double_round 2.3) = ''00:00:02,299''"
proof -
  have d: "is_double (5277655813324797 / 17592186044416)"
    using is_double_ratio [of 5277655813324797 44] by simp
  have "formatSrtTime (2589569785738035 / 1125899906842624) =
           padStart 2 CHR ''0'' (toString_int 0) @ '':'' @
           padStart 2 CHR ''0'' (toString_int 0) @ '':'' @
           padStart 2 CHR ''0''
             (toString_int \<lfloor>js_rem (2589569785738035 / 1125899906842624) 60\<rfloor>) @ '','' @
           padStart 3 CHR ''0'' (toString_int 299)"
  proof (rule formatSrtTime_fields)
    show "\<lfloor>double_round (2589569785738035 / 1125899906842624 / 3600)\<rfloor> = 0"
      by (rule floor_double_round_half) simp_all
    show "\<lfloor>double_round (js_rem (2589569785738035 / 1125899906842624) 3600 / 60)\<rfloor> = 0"
      by (rule floor_double_round_half) (simp_all add: js_rem_def js_trunc_def)
    show "\<lfloor>double_round (js_rem (2589569785738035 / 1125899906842624) 1 * 1000)\<rfloor> = 299"
      by (rule floor_double_round [where d = "5277655813324797 / 17592186044416"])
         (simp_all add: js_rem_def js_trunc_def d)
  qed
  then show ?thesis
    unfolding double_round_2_3 by (simp add: pad_eval)
qed

lemma formatSrtTime_1_001: "formatSrtTime (double_round 1.001) = ''00:00:01,000''"
proof -
  have d: "is_double (281474976710625 / 281474976710656)"
    using is_double_ratio [of 281474976710625 48] by simp
  have "formatSrtTime (2254051613498933 / 2251799813685248) =
           padStart 2 CHR ''0'' (toString_int 0) @ '':'' @
           padStart 2 CHR ''0'' (toString_int 0) @ '':'' @
           padStart 2 CHR ''0''
             (toString_int \<lfloor>js_rem (2254051613498933 / 2251799813685248) 60\<rfloor>) @ '','' @
           padStart 3 CHR ''0'' (toString_int 0)"
  proof (rule formatSrtTime_fields)
    show "\<lfloor>double_round (2254051613498933 / 2251799813685248 / 3600)\<rfloor> = 0"
      by (rule floor_double_round_half) simp_all
    show "\<lfloor>double_round (js_rem (2254051613498933 / 2251799813685248) 3600 / 60)\<rfloor> = 0"
      by (rule floor_double_round_half) (simp_all add: js_rem_def js_trunc_def)
    show "\<lfloor>double_round (js_rem (2254051613498933 / 2251799813685248) 1 * 1000)\<rfloor> = 0"
      by (rule floor_double_round [where d = "281474976710625 / 281474976710656"])
         (simp_all add: js_rem_def js_trunc_def d)
  qed
  then show ?thesis
    unfolding double_round_1_001 by (simp add: pad_eval)
qed



lemma nth_srt_cues: "i < length subs \<Longrightarrow> srt_cues subs mode ! i = srt_cue mode i (subs ! i)"
  by (simp add: srt_cues_def nth_enumerate_eq)




text \<open>
  C5 as the specification states it: in the modes \<open>bilingual\<close> and \<open>bilingual_tagged\<close>
  every cue holds both the original and the translated line. An entry without
  \<open>originalText\<close> is rendered on one line, and in the tagged mode with the \<open>[O]\<close> line
  only.
\<close>

theorem C5_single_line_without_originalText:
  "generateSrtContent [entry 1 0.5 2 ''hello'' None] bilingual_tagged
     = ''1\<newline>00:00:00,500 --> 00:00:02,000\<newline>[O]hello\<newline>'' \<and>
   generateSrtContent [entry 1 0.5 2 ''hello'' None] bilingual
     = ''1\<newline>00:00:00,500 --> 00:00:02,000\<newline>hello\<newline>''"
  by (simp add: cue_eval formatSrtTime_values [simplified])

text \<open>
  C5, amended: for an entry whose \<open>originalText\<close> is present and not empty, the cue in
  mode \<open>bilingual\<close> holds the original text on one line and \<open>text\<close> on the next, and
  in mode \<open>bilingual_tagged\<close> the same two lines prefixed with \<open>[O]\<close> and \<open>[T]\<close>. For
  an entry whose \<open>originalText\<close> is undefined or empty the cue has a single content
  line: \<open>text\<close> in mode \<open>bilingual\<close>, \<open>[O]\<close> and \<open>text\<close> in mode
  \<open>bilingual_tagged\<close>.
\<close>

theorem C5_bilingual_cue_lines:
  assumes "i < length subs"
  shows "(\<forall>orig. originalText (subs ! i) = Some orig \<and> orig \<noteq> [] \<longrightarrow>
            srt_cues subs bilingual ! i =
              toString_nat (i + 1) @ nl @ formatSrtTime (startTime (subs ! i)) @ '' --> '' @
              formatSrtTime (endTime (subs ! i)) @ nl @
              orig @ nl @ text_sub (subs ! i) @ nl \<and>
            srt_cues subs bilingual_tagged ! i =
              toString_nat (i + 1) @ nl @ formatSrtTime (startTime (subs ! i)) @ '' --> '' @
              formatSrtTime (endTime (subs ! i)) @ nl @
              ''[O]'' @ orig @ nl @ ''[T]'' @ text_sub (subs ! i) @ nl) \<and>
         (originalText (subs ! i) = None \<or> originalText (subs ! i) = Some [] \<longrightarrow>
            srt_cues subs bilingual ! i =
              toString_nat (i + 1) @ nl @ formatSrtTime (startTime (subs ! i)) @ '' --> '' @
              formatSrtTime (endTime (subs ! i)) @ nl @
              text_sub (subs ! i) @ nl \<and>
            srt_cues subs bilingual_tagged ! i =
              toString_nat (i + 1) @ nl @ formatSrtTime (startTime (subs ! i)) @ '' --> '' @
              formatSrtTime (endTime (subs ! i)) @ nl @
              ''[O]'' @ text_sub (subs ! i) @ nl)"
  using assms
  by (auto simp: nth_srt_cues srt_cue_def cue_content_def or_text_def falsy_def Let_def)

theorem C5_bilingual_cue_lines_witness:
  "srt_cues two_entries bilingual ! 1
     = ''2\<newline>01:01:01,250 --> 01:01:02,000\<newline>monde\<newline>world\<newline>'' \<and>
   srt_cues two_entries bilingual_tagged ! 1
     = ''2\<newline>01:01:01,250 --> 01:01:02,000\<newline>[O]monde\<newline>[T]world\<newline>''"
proof -
  have a: "1 < length two_entries"
    and o: "originalText (two_entries ! 1) = Some ''monde'' \<and> ''monde'' \<noteq> []"
    and t: "text_sub (two_entries ! 1) = ''world''"
    by (simp_all add: two_entries_def entry_def)
  have st: "formatSrtTime (startTime (two_entries ! 1)) = ''01:01:01,250''"
    and en: "formatSrtTime (endTime (two_entries ! 1)) = ''01:01:02,000''"
    by (simp_all add: two_entries_def entry_def formatSrtTime_values [simplified])
  from C5_bilingual_cue_lines [OF a] o
  have "srt_cues two_entries bilingual ! 1 =
              toString_nat (1 + 1) @ nl @ formatSrtTime (startTime (two_entries ! 1)) @ '' --> '' @
              formatSrtTime (endTime (two_entries ! 1)) @ nl @
              ''monde'' @ nl @ text_sub (two_entries ! 1) @ nl"
    and "srt_cues two_entries bilingual_tagged ! 1 =
              toString_nat (1 + 1) @ nl @ formatSrtTime (startTime (two_entries ! 1)) @ '' --> '' @
              formatSrtTime (endTime (two_entries ! 1)) @ nl @
              ''[O]'' @ ''monde'' @ nl @ ''[T]'' @ text_sub (two_entries ! 1) @ nl"
    by blast+
  with st en t show ?thesis
    by (simp add: nl_def toString_nat_eval digit_char_def)
qed

section \<open>File sizes\<close>

lemma log_index_bounds:
  "1 \<le> n \<Longrightarrow> 1024 ^ log_index n \<le> n \<and> n < 1024 ^ (log_index n + 1)"
proof (induction n rule: log_index.induct)
  case (1 n)
  show ?case
  proof (cases "n < 1024")
    case True
    with "1.prems" show ?thesis by (simp add: log_index.simps)
  next
    case False
    then have d: "1 \<le> n div 1024" by (simp add: Suc_le_eq div_greater_zero_iff)
    from "1.IH" [OF False d]
    have lo: "1024 ^ log_index (n div 1024) \<le> n div 1024"
      and hi: "n div 1024 < 1024 ^ (log_index (n div 1024) + 1)" by simp_all
    have e: "log_index n = Suc (log_index (n div 1024))"
      using False by (subst log_index.simps) simp
    have "1024 * 1024 ^ log_index (n div 1024) \<le> 1024 * (n div 1024)"
      using lo by simp
    also have "\<dots> \<le> n" by simp
    finally have a: "1024 ^ log_index n \<le> n" by (simp add: e)
    have "n < 1024 * (n div 1024 + 1)"
      using dividend_less_times_div [of 1024 n] by simp
    also have "\<dots> \<le> 1024 * 1024 ^ (log_index (n div 1024) + 1)"
      using hi by (simp add: Suc_le_eq del: power_Suc)
    finally have b: "n < 1024 ^ (log_index n + 1)" by (simp add: e)
    from a b show ?thesis by simp
  qed
qed

lemma log_index_floor_log:
  assumes "1 \<le> n"
  shows "\<lfloor>log 1024 (real n)\<rfloor> = int (log_index n)"
  using log_index_bounds [OF assms] floor_log_nat_eq_if [of 1024 "log_index n" n]
  by simp

lemmas log_index_eval = log_index.simps [of 0] log_index.simps [of 1] log_index.simps [of "Suc 0"] log_index.simps [of "numeral k"] for k

lemmas size_eval = formatFileSize_def formatFileSize_store_def log_index_eval show_hundredths_def
  toFixed2_def sizes_at_def toString_nat_eval digit_char_def

text \<open>
  C10: the two helpers are to return the same string for every byte count. The array
  \<open>sizes\<close> of the store's helper ends at \<open>GB\<close>, that of the export copy at \<open>TB\<close>:
  for 2199023255552 bytes (2 TiB) the index is 4, and the store's helper prints
  \<open>undefined\<close> for the unit where the copy prints \<open>TB\<close>. The two bodies differ in
  nothing else.
\<close>

theorem C10_store_helper_has_no_TB:
  "formatFileSize_store 2199023255552 = ''2 undefined'' \<and>
   formatFileSize 2199023255552 = ''2 TB''"
  by (simp add: size_eval)

end
